theory Spec2Isabelle
  imports Main
begin

section \<open>Strings and JavaScript values\<close>

text \<open>
  Strings are lists of 8-bit characters. The case and white-space functions below are the
  ASCII parts of JavaScript's \<open>toLowerCase\<close> and \<open>trim\<close> and the whole of SQLite's
  \<open>LOWER\<close> and \<open>TRIM\<close> (which only know ASCII letters and the space character).
\<close>

definition toLowerChar :: "char \<Rightarrow> char" where
  "toLowerChar c =
     (let n = (of_char c :: nat) in if 65 \<le> n \<and> n \<le> 90 then char_of (n + 32) else c)"

definition toLowerCase :: "string \<Rightarrow> string" where
  "toLowerCase s = map toLowerChar s"

definition js_space :: "char \<Rightarrow> bool" where
  "js_space c = (let n = (of_char c :: nat) in n = 32 \<or> (9 \<le> n \<and> n \<le> 13))"

definition trim :: "string \<Rightarrow> string" where
  "trim s = rev (dropWhile js_space (rev (dropWhile js_space s)))"

definition startsWith :: "string \<Rightarrow> string \<Rightarrow> bool" where
  "startsWith s p = (take (length p) s = p)"

primrec str_includes :: "string \<Rightarrow> string \<Rightarrow> bool" where
  "str_includes [] p = (p = [])"
| "str_includes (c # cs) p = (startsWith (c # cs) p \<or> str_includes cs p)"

text \<open>
  A cell read from a row object or from a result row is a string or \<open>undefined\<close>/\<open>null\<close>
  (\<open>None\<close>). \<open>truthy\<close> is JavaScript's truth test on such a value, \<open>js_or\<close> is \<open>a || b\<close>
  and \<open>or_empty\<close> is \<open>a || ''\<close>.
\<close>

definition truthy :: "string option \<Rightarrow> bool" where
  "truthy v = (case v of None \<Rightarrow> False | Some s \<Rightarrow> s \<noteq> [])"

definition js_or :: "string option \<Rightarrow> string option \<Rightarrow> string option" where
  "js_or a b = (if truthy a then a else b)"

definition or_empty :: "string option \<Rightarrow> string" where
  "or_empty v = (case v of None \<Rightarrow> [] | Some s \<Rightarrow> s)"

definition nth_opt :: "'a list \<Rightarrow> nat \<Rightarrow> 'a option" where
  "nth_opt xs i = (if i < length xs then Some (xs ! i) else None)"

text \<open>\<open>k.split('||')\<close>: the pieces of \<open>k\<close> between the occurrences of \<open>||\<close>, scanned from
  the left; \<open>cur\<close> holds the piece being read, reversed.\<close>

fun split_bars :: "string \<Rightarrow> string \<Rightarrow> string list" where
  "split_bars cur (a # b # cs) =
     (if a = CHR ''|'' \<and> b = CHR ''|'' then rev cur # split_bars [] cs
      else split_bars (a # cur) (b # cs))"
| "split_bars cur [a] = [rev (a # cur)]"
| "split_bars cur [] = [rev cur]"

text \<open>
  \<open>Number(s) || 0\<close> on the decimal integers: white space is trimmed, the empty string is 0,
  an optional sign followed by decimal digits is that integer, and everything else counts
  as \<open>NaN\<close>, which \<open>|| 0\<close> turns into 0. JavaScript numbers are doubles; the aggregator
  below is therefore parametrised by the reading \<open>num\<close> of a numbering cell as an integer,
  and \<open>Number_or_0\<close> is the instance used on concrete stores. Sums are exact as long as
  they stay below \<open>2^53\<close> in magnitude.
\<close>

definition digit_val :: "char \<Rightarrow> nat option" where
  "digit_val c =
     (let n = (of_char c :: nat) in if 48 \<le> n \<and> n \<le> 57 then Some (n - 48) else None)"

fun digits_val :: "nat \<Rightarrow> string \<Rightarrow> nat option" where
  "digits_val acc [] = Some acc"
| "digits_val acc (c # cs) =
     (case digit_val c of None \<Rightarrow> None | Some d \<Rightarrow> digits_val (10 * acc + d) cs)"

definition unsigned_val :: "string \<Rightarrow> nat option" where
  "unsigned_val s = (if s = [] then None else digits_val 0 s)"

definition Number_or_0 :: "string \<Rightarrow> int" where
  "Number_or_0 s =
     (case trim s of
        [] \<Rightarrow> 0
      | c # cs \<Rightarrow>
          if c = CHR ''-'' then (case unsigned_val cs of None \<Rightarrow> 0 | Some n \<Rightarrow> - int n)
          else if c = CHR ''+'' then (case unsigned_val cs of None \<Rightarrow> 0 | Some n \<Rightarrow> int n)
          else (case unsigned_val (c # cs) of None \<Rightarrow> 0 | Some n \<Rightarrow> int n))"

section \<open>The Set Store\<close>

text \<open>
  One store per (sport, set): the tables \<open>cards\<close> and \<open>parallels\<close>. The integer key columns
  (\<open>id\<close>, \<open>card_id\<close>) are fields of the row; every other column holds TEXT or NULL and is
  read through \<open>c_col\<close>/\<open>p_col\<close> by its lower-case name (SQLite resolves column names
  without regard to case). \<open>cards_cols\<close> and \<open>parallels_cols\<close> are the declared column
  names, as \<open>PRAGMA table_info\<close> lists them; a table that does not exist has none, and a
  query that names a column missing from them is rejected.
\<close>

record card_row =
  c_id :: int
  c_col :: "string \<Rightarrow> string option"

record parallel_row =
  p_id :: int
  p_card_id :: "int option"
  p_col :: "string \<Rightarrow> string option"

record store =
  cards_cols :: "string list"
  cards :: "card_row list"
  parallels_cols :: "string list"
  parallels :: "parallel_row list"

definition sanitizeFileName :: "string option \<Rightarrow> string" where
  "sanitizeFileName name =
     map (\<lambda>c. let n = (of_char c :: nat) in
                if (97 \<le> n \<and> n \<le> 122) \<or> (48 \<le> n \<and> n \<le> 57) then c else CHR ''_'')
         (toLowerCase (or_empty name))"

definition dbName :: "string option \<Rightarrow> string option \<Rightarrow> string" where
  "dbName sport setName = sanitizeFileName sport @ ''_'' @ sanitizeFileName setName @ ''.db''"

section \<open>Schema detection (routes/athlete-api.js)\<close>

definition has :: "string list \<Rightarrow> string \<Rightarrow> bool" where
  "has cols name = list_ex (\<lambda>c. toLowerCase c = name) cols"

record schema =
  rookieCol :: "string option"
  numberingCol :: "string option"

definition detectSchema :: "store \<Rightarrow> schema" where
  "detectSchema db =
     \<lparr> rookieCol =
         (if has (cards_cols db) ''rookie'' then Some ''rookie''
          else if has (cards_cols db) ''is_rookie'' then Some ''is_rookie'' else None),
       numberingCol =
         (if has (parallels_cols db) ''parallel_numbering'' then Some ''parallel_numbering''
          else if has (parallels_cols db) ''numbering'' then Some ''numbering'' else None) \<rparr>"

section \<open>The queries of the athlete summary\<close>

datatype error = SqlError

definition sql_LOWER :: "string option \<Rightarrow> string option" where
  "sql_LOWER v = map_option toLowerCase v"

definition sql_TRIM :: "string option \<Rightarrow> string option" where
  "sql_TRIM v =
     map_option (\<lambda>s. rev (dropWhile (\<lambda>c. c = CHR '' '') (rev (dropWhile (\<lambda>c. c = CHR '' '') s)))) v"

text \<open>SQL equality in a \<open>WHERE\<close> or \<open>CASE WHEN\<close>: a comparison with NULL does not hold.\<close>

definition sql_eq :: "string option \<Rightarrow> string option \<Rightarrow> bool" where
  "sql_eq a b = (case (a, b) of (Some x, Some y) \<Rightarrow> x = y | _ \<Rightarrow> False)"

fun sql_MAX :: "int list \<Rightarrow> int option" where
  "sql_MAX [] = None"
| "sql_MAX (x # xs) = (case sql_MAX xs of None \<Rightarrow> Some x | Some m \<Rightarrow> Some (max x m))"

definition athlete_matches :: "string \<Rightarrow> card_row \<Rightarrow> bool" where
  "athlete_matches athlete c =
     sql_eq (sql_LOWER (c_col c ''athlete_name'')) (sql_LOWER (Some athlete))"

text \<open>\<open>SELECT MAX(CASE WHEN LOWER(TRIM(rc)) = 'rookie' THEN 1 ELSE 0 END) AS flag FROM cards
  WHERE LOWER(athlete_name) = LOWER(?)\<close>; the column \<open>rc\<close> exists, being the detected one.\<close>

definition rookie_query :: "store \<Rightarrow> string \<Rightarrow> string \<Rightarrow> error + int option" where
  "rookie_query db rc athlete =
     (if \<not> has (cards_cols db) ''athlete_name'' then Inl SqlError
      else Inr (sql_MAX
             (map (\<lambda>c. if sql_eq (sql_LOWER (sql_TRIM (c_col c rc))) (Some ''rookie'')
                        then 1 else 0)
                  (filter (athlete_matches athlete) (cards db)))))"

record joined_row =
  j_subset :: "string option"
  j_card_type :: "string option"
  j_numbering :: "string option"

text \<open>\<open>SELECT c.subset, c.card_type, p.nc AS numbering FROM cards c LEFT JOIN parallels p
  ON c.id = p.card_id WHERE LOWER(c.athlete_name) = LOWER(?)\<close>: a card without parallels
  gives one row with NULL numbering.\<close>

definition join_card :: "store \<Rightarrow> string \<Rightarrow> card_row \<Rightarrow> joined_row list" where
  "join_card db nc c =
     (let ps = filter (\<lambda>p. p_card_id p = Some (c_id c)) (parallels db) in
      if ps = []
      then [\<lparr> j_subset = c_col c ''subset'', j_card_type = c_col c ''card_type'',
              j_numbering = None \<rparr>]
      else map (\<lambda>p. \<lparr> j_subset = c_col c ''subset'', j_card_type = c_col c ''card_type'',
                      j_numbering = p_col p nc \<rparr>) ps)"

definition summary_query :: "store \<Rightarrow> string \<Rightarrow> string \<Rightarrow> error + joined_row list" where
  "summary_query db nc athlete =
     (if \<not> (has (cards_cols db) ''athlete_name'' \<and> has (cards_cols db) ''subset''
             \<and> has (cards_cols db) ''card_type'')
      then Inl SqlError
      else Inr (concat (map (join_card db nc) (filter (athlete_matches athlete) (cards db)))))"

section \<open>The aggregator (GET /api/athlete-summary)\<close>

record breakdown_entry =
  b_subset :: "string option"
  b_cardType :: "string option"
  b_total :: int

record summary =
  athlete :: string
  isRookie :: bool
  cardTypeCount :: nat
  totalParallelCards :: int
  autographCount :: int
  autographRelicCount :: int
  breakdown :: "breakdown_entry list"

text \<open>The \<open>Map\<close> of group totals keeps its keys in insertion order; \<open>group_set\<close> overwrites
  the value of a key that is present and appends a new key at the end.\<close>

fun group_get :: "(string \<times> int) list \<Rightarrow> string \<Rightarrow> int option" where
  "group_get [] k = None"
| "group_get ((k', v) # g) k = (if k' = k then Some v else group_get g k)"

fun group_set :: "(string \<times> int) list \<Rightarrow> string \<Rightarrow> int \<Rightarrow> (string \<times> int) list" where
  "group_set [] k v = [(k, v)]"
| "group_set ((k', v') # g) k v = (if k' = k then (k, v) # g else (k', v') # group_set g k v)"

record totals =
  groups :: "(string \<times> int) list"
  totalNumbered :: int
  autographNumbered :: int
  autographRelicNumbered :: int

definition row_key :: "joined_row \<Rightarrow> string" where
  "row_key r = or_empty (j_subset r) @ ''||'' @ or_empty (j_card_type r)"

definition row_n :: "(string \<Rightarrow> int) \<Rightarrow> joined_row \<Rightarrow> int" where
  "row_n num r = (case j_numbering r of None \<Rightarrow> 0 | Some s \<Rightarrow> num s)"

definition loop_body :: "(string \<Rightarrow> int) \<Rightarrow> totals \<Rightarrow> joined_row \<Rightarrow> totals" where
  "loop_body num t r =
     (let subset = or_empty (j_subset r);
          key = row_key r;
          n = row_n num r;
          sLc = toLowerCase subset
      in \<lparr> groups = group_set (groups t) key
                       ((case group_get (groups t) key of None \<Rightarrow> 0 | Some v \<Rightarrow> v) + n),
            totalNumbered = totalNumbered t + n,
            autographNumbered =
              (if sLc = ''autograph'' then autographNumbered t + n else autographNumbered t),
            autographRelicNumbered =
              (if sLc = ''autograph relic'' then autographRelicNumbered t + n
               else autographRelicNumbered t) \<rparr>)"

definition totals0 :: totals where
  "totals0 = \<lparr> groups = [], totalNumbered = 0, autographNumbered = 0,
               autographRelicNumbered = 0 \<rparr>"

definition to_entry :: "string \<times> int \<Rightarrow> breakdown_entry" where
  "to_entry kv =
     (let parts = split_bars [] (fst kv)
      in \<lparr> b_subset = nth_opt parts 0, b_cardType = nth_opt parts 1, b_total = snd kv \<rparr>)"

definition zero_summary :: "string \<Rightarrow> bool \<Rightarrow> summary" where
  "zero_summary a r =
     \<lparr> athlete = a, isRookie = r, cardTypeCount = 0, totalParallelCards = 0,
       autographCount = 0, autographRelicCount = 0, breakdown = [] \<rparr>"

definition aggregate :: "(string \<Rightarrow> int) \<Rightarrow> string \<Rightarrow> bool \<Rightarrow> joined_row list \<Rightarrow> summary" where
  "aggregate num a r rows =
     (let t = foldl (loop_body num) totals0 rows;
          bd = map to_entry (groups t)
      in \<lparr> athlete = a, isRookie = r,
            cardTypeCount = length (remdups (map (\<lambda>b. trim (or_empty (b_cardType b))) bd)),
            totalParallelCards = totalNumbered t,
            autographCount = autographNumbered t,
            autographRelicCount = autographRelicNumbered t,
            breakdown = bd \<rparr>)"

text \<open>The guarded body of the handler; \<open>Inl\<close> is a rejected query, which the handler
  catches and answers with status 500.\<close>

definition rookie_flag :: "store \<Rightarrow> string \<Rightarrow> error + bool" where
  "rookie_flag db a =
     (case rookieCol (detectSchema db) of
        None \<Rightarrow> Inr False
      | Some rc \<Rightarrow> (case rookie_query db rc a of
                     Inl e \<Rightarrow> Inl e
                   | Inr flag \<Rightarrow> Inr (flag = Some 1)))"

definition summarize :: "(string \<Rightarrow> int) \<Rightarrow> store \<Rightarrow> string \<Rightarrow> error + summary" where
  "summarize num db a =
     (case rookie_flag db a of
        Inl e \<Rightarrow> Inl e
      | Inr r \<Rightarrow>
          (case numberingCol (detectSchema db) of
             None \<Rightarrow> Inr (zero_summary a r)
           | Some nc \<Rightarrow>
               (case summary_query db nc a of
                  Inl e \<Rightarrow> Inl e
                | Inr rows \<Rightarrow>
                    if rows = [] then Inr (zero_summary a r)
                    else Inr (aggregate num a r rows))))"




text \<open>The columns every query of the aggregator names besides the detected ones.\<close>

definition card_columns :: "store \<Rightarrow> bool" where
  "card_columns db =
     (has (cards_cols db) ''athlete_name'' \<and> has (cards_cols db) ''subset''
      \<and> has (cards_cols db) ''card_type'')"




section \<open>Ingestion (POST /upload-checklist, app.js)\<close>

text \<open>
  The uploaded file as the csv parser delivers it: the headers after \<open>mapHeaders\<close> and one
  object per row, from header to cell. The temporary files of the upload directory are
  known by their paths.
\<close>

type_synonym csv_row = "string \<rightharpoonup> string"

record csv_file =
  f_headers :: "string list"
  f_rows :: "csv_row list"

record upload_request =
  req_sport :: "string option"
  req_setName :: "string option"
  req_path :: string
  req_csv :: csv_file

datatype upload_response = BadRequest string | Redirect string

record server =
  data :: "string \<rightharpoonup> store"
  uploads :: "string set"

text \<open>
  The state of one ingestion: the two tables, the countdown \<open>pending\<close>, whether the
  finalisation (statements finalised, store closed, temporary file unlinked, redirect sent)
  has run, and the rows whose error went to \<open>console.error\<close>.
\<close>

record ingest =
  i_cards :: "card_row list"
  i_parallels :: "parallel_row list"
  pending :: int
  finalized :: bool
  logged :: "nat list"

type_synonym parallel_args = "int \<times> string option \<times> string option"

definition isParallelName :: "string \<Rightarrow> bool" where
  "isParallelName header =
     (let h = toLowerCase header
      in str_includes h ''parallel'' \<and> \<not> str_includes h ''numbering'')"

text \<open>The body of \<open>headers.forEach((header, idx) => ...)\<close>; \<open>runs\<close> collects the argument
  lists of the calls \<open>insertParallel.run([cardId, parallelName, parallelNumbering])\<close>.\<close>

definition header_callback ::
  "string list \<Rightarrow> csv_row \<Rightarrow> int \<Rightarrow> parallel_args list \<Rightarrow> nat \<Rightarrow> parallel_args list" where
  "header_callback hs row cardId runs idx =
     (let header = hs ! idx in
      if isParallelName header then
        (let parallelName = row header in
         if truthy parallelName then
           (let numberingHeader = nth_opt hs (idx + 1);
                parallelNumbering =
                  (case numberingHeader of
                     None \<Rightarrow> Some []
                   | Some nh \<Rightarrow>
                       if nh \<noteq> [] \<and> str_includes (toLowerCase nh) ''numbering''
                       then row nh else Some [])
            in runs @ [(cardId, parallelName, parallelNumbering)])
         else runs)
      else runs)"

text \<open>An insert takes the next row id of its table (\<open>AUTOINCREMENT\<close> in a fresh store).\<close>

definition insertParallel_run :: "parallel_row list \<Rightarrow> parallel_args \<Rightarrow> parallel_row list" where
  "insertParallel_run ps args =
     (case args of (cardId, parallelName, parallelNumbering) \<Rightarrow>
        ps @ [\<lparr> p_id = int (length ps) + 1, p_card_id = Some cardId,
                p_col = (\<lambda>_. None)(''parallel_name'' := parallelName,
                                     ''parallel_numbering'' := parallelNumbering) \<rparr>])"

definition card_values :: "csv_row \<Rightarrow> string \<Rightarrow> string option" where
  "card_values row =
     (\<lambda>_. None)
       (''card_number'' := row ''card_number'',
        ''athlete_name'' :=
           js_or (js_or (row ''athlete_full_name'') (row ''athlete_name'')) (row ''athlete''),
        ''rookie'' := row ''rookie'',
        ''subset'' := row ''subset'',
        ''card_type'' := js_or (row ''type'') (row ''card_type''))"

text \<open>
  \<open>insertCard.run([...], function (err) {...})\<close> for the row of index \<open>i\<close>. Whether the store
  accepts the write is not decided by the program: \<open>fails i\<close> says that it reports an error.
\<close>

definition row_callback ::
  "(nat \<Rightarrow> bool) \<Rightarrow> string list \<Rightarrow> ingest \<Rightarrow> nat \<times> csv_row \<Rightarrow> ingest" where
  "row_callback fails hs st ir =
     (case ir of (i, row) \<Rightarrow>
        if fails i then st\<lparr> logged := logged st @ [i] \<rparr>
        else
          (let cardId = int (length (i_cards st)) + 1;
               cs = i_cards st @ [\<lparr> c_id = cardId, c_col = card_values row \<rparr>];
               runs = foldl (header_callback hs row cardId) [] [0..<length hs];
               ps = foldl insertParallel_run (i_parallels st) runs;
               pending' = pending st - 1
           in st\<lparr> i_cards := cs, i_parallels := ps, pending := pending',
                  finalized := (finalized st \<or> pending' = 0) \<rparr>))"

definition ingest_file :: "(nat \<Rightarrow> bool) \<Rightarrow> csv_file \<Rightarrow> ingest" where
  "ingest_file fails f =
     (let st0 = \<lparr> i_cards = [], i_parallels = [], pending = int (length (f_rows f)),
                  finalized = False, logged = [] \<rparr>
      in if pending st0 = 0 then st0\<lparr> finalized := True \<rparr>
         else foldl (row_callback fails (f_headers f)) st0
                (zip [0..<length (f_rows f)] (f_rows f)))"

definition new_store :: "ingest \<Rightarrow> store" where
  "new_store st =
     \<lparr> cards_cols =
         [''id'', ''card_number'', ''athlete_name'', ''rookie'', ''subset'', ''card_type''],
       cards = i_cards st,
       parallels_cols = [''id'', ''card_id'', ''parallel_name'', ''parallel_numbering''],
       parallels = i_parallels st \<rparr>"

definition upload_checklist ::
  "(nat \<Rightarrow> bool) \<Rightarrow> server \<Rightarrow> upload_request \<Rightarrow> server \<times> upload_response option" where
  "upload_checklist fails srv req =
     (if \<not> truthy (req_sport req) \<or> \<not> truthy (req_setName req)
      then (srv, Some (BadRequest ''Missing sport or set name''))
      else
        (let dbPath = dbName (req_sport req) (req_setName req);
             unlinked = (data srv)(dbPath := None);
             st = ingest_file fails (req_csv req)
         in (\<lparr> data = unlinked(dbPath \<mapsto> new_store st),
               uploads = (if finalized st then uploads srv - {req_path req} else uploads srv) \<rparr>,
             if finalized st then Some (Redirect ''/upload-success.html'') else None)))"


text \<open>The identity mapping in the spec's words: a field is bound, once per file, to the
  first name of its priority list that is among the file's headers.\<close>

definition spec_field_header :: "string list \<Rightarrow> string list \<Rightarrow> string option" where
  "spec_field_header hs names = find (\<lambda>n. n \<in> set hs) names"

definition spec_athlete_name :: "string list \<Rightarrow> csv_row \<Rightarrow> string option" where
  "spec_athlete_name hs row =
     (case spec_field_header hs [''athlete_full_name'', ''athlete_name'', ''athlete''] of
        None \<Rightarrow> None
      | Some h \<Rightarrow> row h)"

section \<open>Example files and stores\<close>

text \<open>A one-card checklist; with \<open>''Rookie''\<close>, \<open>''Base''\<close> and \<open>''25''\<close> it is the example of the
  design document.\<close>

definition one_card_file :: "string \<Rightarrow> string \<Rightarrow> string \<Rightarrow> csv_file" where
  "one_card_file rk sub numbering =
     \<lparr> f_headers = [''card_number'', ''athlete_full_name'', ''rookie'', ''subset'', ''type'',
                     ''parallel_1'', ''parallel_1_numbering''],
       f_rows = [map_of [(''card_number'', ''1''), (''athlete_full_name'', ''Jane Doe''),
                         (''rookie'', rk), (''subset'', sub), (''type'', ''Base''),
                         (''parallel_1'', ''Gold''), (''parallel_1_numbering'', numbering)]] \<rparr>"

definition one_card_store :: "string \<Rightarrow> string \<Rightarrow> string \<Rightarrow> store" where
  "one_card_store rk sub numbering =
     new_store (ingest_file (\<lambda>_. False) (one_card_file rk sub numbering))"

definition no_numbering_store :: store where
  "no_numbering_store =
     (one_card_store ''ROOKIE '' ''Base'' ''25'')
       \<lparr> parallels_cols := [''id'', ''card_id'', ''parallel_name''] \<rparr>"

definition two_name_file :: csv_file where
  "two_name_file =
     \<lparr> f_headers = [''card_number'', ''athlete_full_name'', ''athlete_name''],
       f_rows = [map_of [(''card_number'', ''1''), (''athlete_full_name'', ''Jane Doe''),
                         (''athlete_name'', ''J. Doe'')],
                 map_of [(''card_number'', ''2''), (''athlete_full_name'', ''''),
                         (''athlete_name'', ''Bob Ray'')]] \<rparr>"

definition two_name_request :: upload_request where
  "two_name_request =
     \<lparr> req_sport = Some ''Football'', req_setName = Some ''2023 Prizm'',
       req_path = ''uploads/3f9a'', req_csv = two_name_file \<rparr>"

definition one_upload :: server where
  "one_upload = \<lparr> data = Map.empty, uploads = {''uploads/3f9a''} \<rparr>"



definition fresh_ingest :: ingest where
  "fresh_ingest =
     \<lparr> i_cards = [], i_parallels = [], pending = 2, finalized = False, logged = [] \<rparr>"

section \<open>Auxiliary facts\<close>

subsection \<open>Schema and queries\<close>


lemma sql_MAX_flag:
  "sql_MAX (map (\<lambda>c. if P c then 1 else 0) xs) = Some 1 \<longleftrightarrow> (\<exists>c\<in>set xs. P c)"
proof (induction xs)
  case Nil
  show ?case by simp
next
  case (Cons x xs)
  have le: "sql_MAX (map (\<lambda>c. if P c then 1 else 0) xs) = Some m \<Longrightarrow> m \<le> 1" for m
    by (induction xs arbitrary: m) (auto split: option.splits if_splits)
  show ?case using Cons le
    by (auto split: option.splits simp: max_def)
qed

subsection \<open>The grouping loop\<close>












text \<open>Every store the ingestion writes has the card columns.\<close>

lemma new_store_card_columns: "card_columns (new_store st)"
  by code_simp

subsection \<open>Rows of the join\<close>





subsection \<open>The aggregator returns\<close>


lemma rookie_flag_value:
  assumes "rookie_flag db a = Inr r"
  shows "r \<longleftrightarrow> (\<exists>rc. rookieCol (detectSchema db) = Some rc \<and>
            (\<exists>c\<in>set (cards db). athlete_matches a c \<and>
                sql_eq (sql_LOWER (sql_TRIM (c_col c rc))) (Some ''rookie'')))"
  using assms
  by (auto simp: rookie_flag_def rookie_query_def sql_MAX_flag split: option.splits if_splits)

lemma rookie_flag_total:
  assumes "has (cards_cols db) ''athlete_name''"
  shows "\<exists>r. rookie_flag db a = Inr r"
  using assms by (auto simp: rookie_flag_def rookie_query_def split: option.splits)





subsection \<open>The header scan\<close>

text \<open>\<open>str_includes\<close> is containment as a contiguous substring.\<close>

lemma startsWith_iff: "startsWith s p \<longleftrightarrow> (\<exists>b. s = p @ b)"
  unfolding startsWith_def
  by (metis append_eq_conv_conj append_take_drop_id)

lemma str_includes_iff: "str_includes s p \<longleftrightarrow> (\<exists>a b. s = a @ p @ b)"
proof (induction s)
  case Nil
  show ?case by auto
next
  case (Cons c s)
  show ?case
  proof
    assume "str_includes (c # s) p"
    then consider "startsWith (c # s) p" | "str_includes s p" by auto
    then show "\<exists>a b. c # s = a @ p @ b"
    proof cases
      case 1
      then obtain b where "c # s = p @ b" by (auto simp: startsWith_iff)
      then have "c # s = [] @ p @ b" by simp
      then show ?thesis by blast
    next
      case 2
      then obtain a b where "s = a @ p @ b" using Cons.IH by blast
      then have "c # s = (c # a) @ p @ b" by simp
      then show ?thesis by blast
    qed
  next
    assume "\<exists>a b. c # s = a @ p @ b"
    then obtain a b where ab: "c # s = a @ p @ b" by blast
    show "str_includes (c # s) p"
    proof (cases a)
      case Nil
      then have "startsWith (c # s) p" using ab by (auto simp: startsWith_iff)
      then show ?thesis by simp
    next
      case (Cons x a')
      then have "s = a' @ p @ b" using ab by simp
      then have "str_includes s p" using Cons.IH by blast
      then show ?thesis by simp
    qed
  qed
qed




subsection \<open>The countdown\<close>

text \<open>A failed write leaves \<open>pending\<close> as it is, a successful one lowers it by one, and the
  finalisation runs when it reaches 0. Started at the number of rows, it reaches 0 exactly
  when every write succeeds.\<close>

lemma row_callback_failed:
  "fails i \<Longrightarrow> row_callback fails hs st (i, row) = st\<lparr> logged := logged st @ [i] \<rparr>"
  by (simp add: row_callback_def)

lemma row_callback_pending:
  "pending (row_callback fails hs st (i, row)) = (if fails i then pending st else pending st - 1)"
  by (simp add: row_callback_def Let_def)

lemma row_callback_finalized:
  "finalized (row_callback fails hs st (i, row)) \<longleftrightarrow>
     finalized st \<or> (\<not> fails i \<and> pending st = 1)"
  by (auto simp: row_callback_def Let_def)

lemma pending_stuck:
  assumes "\<not> finalized st" and "int (length xs) < pending st"
  shows "\<not> finalized (foldl (row_callback fails hs) st xs)"
  using assms
proof (induction xs arbitrary: st)
  case Nil
  then show ?case by simp
next
  case (Cons x xs)
  obtain i row where x: "x = (i, row)" by (cases x) auto
  let ?st = "row_callback fails hs st (i, row)"
  have "\<not> finalized ?st" using Cons.prems by (simp add: row_callback_finalized)
  moreover have "int (length xs) < pending ?st" using Cons.prems by (simp add: row_callback_pending)
  ultimately show ?case using Cons.IH [of ?st] by (simp add: x)
qed

lemma failed_write_blocks:
  assumes "\<not> finalized st" and "int (length xs) \<le> pending st" and "\<exists>x\<in>set xs. fails (fst x)"
  shows "\<not> finalized (foldl (row_callback fails hs) st xs)"
  using assms
proof (induction xs arbitrary: st)
  case Nil
  then show ?case by simp
next
  case (Cons x xs)
  obtain i row where x: "x = (i, row)" by (cases x) auto
  let ?st = "row_callback fails hs st (i, row)"
  show ?case
  proof (cases "fails i")
    case True
    have "\<not> finalized ?st" using Cons.prems(1) True by (simp add: row_callback_finalized)
    moreover have "int (length xs) < pending ?st" using Cons.prems(2) True by (simp add: row_callback_pending)
    ultimately show ?thesis using pending_stuck [of ?st xs fails hs] by (simp add: x)
  next
    case False
    then have ex: "\<exists>x\<in>set xs. fails (fst x)" using Cons.prems(3) by (simp add: x)
    then have "xs \<noteq> []" by auto
    then have "0 < int (length xs)" by simp
    moreover have "int (length xs) + 1 \<le> pending st" using Cons.prems(2) by simp
    ultimately have "pending st \<noteq> 1" by linarith
    then have "\<not> finalized ?st" using Cons.prems(1) by (simp add: row_callback_finalized)
    moreover have "int (length xs) \<le> pending ?st" using Cons.prems(2) False by (simp add: row_callback_pending)
    ultimately show ?thesis using Cons.IH [of ?st] ex by (simp add: x)
  qed
qed

lemma failed_row_never_finalizes:
  assumes "i < length (f_rows f)" and "fails i"
  shows "\<not> finalized (ingest_file fails f)"
proof -
  let ?xs = "zip [0..<length (f_rows f)] (f_rows f)"
  let ?st0 = "\<lparr> i_cards = [], i_parallels = [], pending = int (length (f_rows f)),
                  finalized = False, logged = [] \<rparr>"
  have "(i, f_rows f ! i) \<in> set ?xs"
    using assms(1) by (auto simp: set_zip intro: exI [of _ i])
  then have "\<exists>x\<in>set ?xs. fails (fst x)" using assms(2) by force
  then have "\<not> finalized (foldl (row_callback fails (f_headers f)) ?st0 ?xs)"
    by (intro failed_write_blocks) simp_all
  moreover have "f_rows f \<noteq> []" using assms(1) by auto
  ultimately show ?thesis by (simp add: ingest_file_def Let_def)
qed

lemma all_written_finalizes_aux:
  assumes "\<forall>x\<in>set xs. \<not> fails (fst x)" and "pending st = int (length xs)" and "xs \<noteq> []"
  shows "finalized (foldl (row_callback fails hs) st xs)"
  using assms
proof (induction xs arbitrary: st)
  case Nil
  then show ?case by simp
next
  case (Cons x xs)
  obtain i row where x: "x = (i, row)" by (cases x) auto
  let ?st = "row_callback fails hs st (i, row)"
  have nf: "\<not> fails i" using Cons.prems(1) by (simp add: x)
  show ?case
  proof (cases xs)
    case Nil
    then show ?thesis using Cons.prems(2) nf by (simp add: x row_callback_finalized)
  next
    case (Cons y ys)
    have "pending ?st = int (length xs)" using Cons.prems(2) nf by (simp add: row_callback_pending)
    then show ?thesis using Cons.IH [of ?st] Cons.prems(1) Cons by (simp add: x)
  qed
qed

lemma all_written_finalizes:
  assumes "\<forall>i<length (f_rows f). \<not> fails i"
  shows "finalized (ingest_file fails f)"
proof (cases "f_rows f = []")
  case True
  then show ?thesis by (simp add: ingest_file_def Let_def)
next
  case False
  let ?xs = "zip [0..<length (f_rows f)] (f_rows f)"
  have "\<forall>x\<in>set ?xs. \<not> fails (fst x)" using assms by (auto simp: set_zip)
  moreover have "?xs \<noteq> []" using False by (cases "f_rows f") (simp_all add: upt_conv_Cons)
  ultimately have "finalized (foldl (row_callback fails (f_headers f))
       \<lparr> i_cards = [], i_parallels = [], pending = int (length (f_rows f)),
                  finalized = False, logged = [] \<rparr> ?xs)"
    by (intro all_written_finalizes_aux) simp_all
  then show ?thesis using False by (simp add: ingest_file_def Let_def)
qed

lemma surviving_rows_aux:
  "map c_col (i_cards (foldl (row_callback fails hs) st xs)) =
   map c_col (i_cards st) @ map (card_values \<circ> snd) (filter (\<lambda>x. \<not> fails (fst x)) xs)"
proof (induction xs arbitrary: st)
  case Nil
  show ?case by simp
next
  case (Cons x xs)
  obtain i row where x: "x = (i, row)" by (cases x) auto
  show ?case
    using Cons.IH [of "row_callback fails hs st (i, row)"]
    by (simp add: x row_callback_def Let_def)
qed

lemma surviving_rows:
  "map c_col (i_cards (ingest_file fails f)) =
   map (card_values \<circ> snd)
     (filter (\<lambda>x. \<not> fails (fst x)) (zip [0..<length (f_rows f)] (f_rows f)))"
proof (cases "f_rows f = []")
  case True
  then show ?thesis by (simp add: ingest_file_def Let_def)
next
  case False
  then show ?thesis
    using surviving_rows_aux [of fails "f_headers f"
        "\<lparr> i_cards = [], i_parallels = [], pending = int (length (f_rows f)),
           finalized = False, logged = [] \<rparr>" "zip [0..<length (f_rows f)] (f_rows f)"]
    by (simp add: ingest_file_def Let_def)
qed

lemma all_written_responds:
  assumes "truthy (req_sport req)" and "truthy (req_setName req)"
    and "\<forall>i<length (f_rows (req_csv req)). \<not> fails i"
  shows "snd (upload_checklist fails srv req) = Some (Redirect ''/upload-success.html'')
       \<and> uploads (fst (upload_checklist fails srv req)) = uploads srv - {req_path req}"
  using assms all_written_finalizes [of "req_csv req" fails]
  by (simp add: upload_checklist_def Let_def)


section \<open>Ingestion: completion, pairing, identity fields, replacement\<close>

text \<open>
  C1, the code at a failing card write. The design asks that an upload in which a row's
  card write fails still completes: the row is logged and dropped, the other rows are
  processed, and the finalisation (store closed, temporary file removed, response sent)
  still occurs. In the handler the error branch returns before \<open>pending--\<close>. So whenever
  the card write of some row fails, the rows whose write succeeds are stored, but the
  countdown never reaches 0: no response is sent and the temporary file stays.
\<close>

theorem failed_write_never_completes:
  assumes "truthy (req_sport req)" and "truthy (req_setName req)"
    and "i < length (f_rows (req_csv req))" and "fails i"
  shows "snd (upload_checklist fails srv req) = None
       \<and> uploads (fst (upload_checklist fails srv req)) = uploads srv
       \<and> \<not> finalized (ingest_file fails (req_csv req))
       \<and> map c_col (i_cards (ingest_file fails (req_csv req))) =
           map (card_values \<circ> snd)
             (filter (\<lambda>x. \<not> fails (fst x))
                (zip [0..<length (f_rows (req_csv req))] (f_rows (req_csv req))))"
  using assms failed_row_never_finalizes [of i "req_csv req" fails]
    surviving_rows [of fails "req_csv req"]
  by (simp add: upload_checklist_def Let_def)

theorem failed_write_hangs_upload:
  "snd (upload_checklist (\<lambda>i. i = 0) one_upload two_name_request) = None
   \<and> ''uploads/3f9a'' \<in> uploads (fst (upload_checklist (\<lambda>i. i = 0) one_upload two_name_request))
   \<and> logged (ingest_file (\<lambda>i. i = 0) two_name_file) = [0]
   \<and> map (\<lambda>c. c_col c ''athlete_name'') (i_cards (ingest_file (\<lambda>i. i = 0) two_name_file))
       = [Some ''Bob Ray'']
   \<and> pending (ingest_file (\<lambda>i. i = 0) two_name_file) = 1"
proof -
  have s: "truthy (req_sport two_name_request)" and n: "truthy (req_setName two_name_request)"
    and i: "0 < length (f_rows (req_csv two_name_request))"
    by code_simp+
  have f: "(\<lambda>i. i = 0) (0::nat)" by simp
  have rest: "logged (ingest_file (\<lambda>i. i = 0) two_name_file) = [0]
     \<and> map (\<lambda>c. c_col c ''athlete_name'') (i_cards (ingest_file (\<lambda>i. i = 0) two_name_file))
         = [Some ''Bob Ray'']
     \<and> pending (ingest_file (\<lambda>i. i = 0) two_name_file) = 1"
    by code_simp
  from failed_write_never_completes [where fails = "\<lambda>i. i = 0" and srv = one_upload
      and req = two_name_request and i = 0, OF s n i f]
  have "snd (upload_checklist (\<lambda>i. i = 0) one_upload two_name_request) = None"
    and "uploads (fst (upload_checklist (\<lambda>i. i = 0) one_upload two_name_request))
           = uploads one_upload"
    by blast+
  then show ?thesis using rest by (simp add: one_upload_def)
qed



text \<open>
  C6, as the handler resolves the fields. For a row whose card was written, the athlete
  name is the row's first non-empty cell among \<open>athlete_full_name\<close>, \<open>athlete_name\<close>,
  \<open>athlete\<close> (the \<open>athlete\<close> cell when none is non-empty), the card type is the \<open>type\<close> cell
  if non-empty and the \<open>card_type\<close> cell otherwise, and \<open>card_number\<close>, \<open>rookie\<close> and
  \<open>subset\<close> are the cells under exactly these headers. The choice is made for each row
  from its cells.
\<close>

theorem card_identity_fields:
  assumes "\<not> fails i"
  shows "\<exists>card.
     i_cards (row_callback fails hs st (i, row)) = i_cards st @ [card] \<and>
     c_col card ''athlete_name'' =
       (if truthy (row ''athlete_full_name'') then row ''athlete_full_name''
        else if truthy (row ''athlete_name'') then row ''athlete_name''
        else row ''athlete'') \<and>
     c_col card ''card_type'' = (if truthy (row ''type'') then row ''type'' else row ''card_type'') \<and>
     c_col card ''card_number'' = row ''card_number'' \<and>
     c_col card ''rookie'' = row ''rookie'' \<and>
     c_col card ''subset'' = row ''subset''"
  using assms by (simp add: row_callback_def Let_def card_values_def js_or_def)

theorem card_identity_fields_witness:
  "\<not> (\<lambda>_. False) (1::nat) \<and>
   (\<exists>card.
      i_cards (row_callback (\<lambda>_. False) (f_headers two_name_file) fresh_ingest
                 (1, f_rows two_name_file ! 1)) = [card] \<and>
      c_col card ''athlete_name'' = Some ''Bob Ray'' \<and>
      c_col card ''card_type'' = None \<and>
      c_col card ''card_number'' = Some ''2'')"
proof -
  let ?row = "f_rows two_name_file ! 1"
  have a: "(if truthy (?row ''athlete_full_name'') then ?row ''athlete_full_name''
            else if truthy (?row ''athlete_name'') then ?row ''athlete_name''
            else ?row ''athlete'') = Some ''Bob Ray''"
    by code_simp
  have t: "(if truthy (?row ''type'') then ?row ''type'' else ?row ''card_type'') = None"
    by code_simp
  have n: "?row ''card_number'' = Some ''2''"
    by code_simp
  have nf: "\<not> (\<lambda>_. False) (1::nat)" by simp
  from card_identity_fields [where fails = "\<lambda>_. False" and i = 1
      and hs = "f_headers two_name_file" and st = fresh_ingest and row = ?row, OF nf]
  have "\<exists>card.
      i_cards (row_callback (\<lambda>_. False) (f_headers two_name_file) fresh_ingest (1, ?row))
        = i_cards fresh_ingest @ [card] \<and>
      c_col card ''athlete_name'' = Some ''Bob Ray'' \<and>
      c_col card ''card_type'' = None \<and>
      c_col card ''card_number'' = Some ''2''"
    unfolding a t n by blast
  then show ?thesis by (simp add: fresh_ingest_def)
qed

text \<open>
  C6 as stated fails: with both \<open>athlete_full_name\<close> and \<open>athlete_name\<close> among the headers, a
  mapping fixed once per file reads every athlete from \<open>athlete_full_name\<close>, so the second
  row, whose cell there is empty, would get the empty name; the handler stores the
  \<open>athlete_name\<close> cell for that row.
\<close>

theorem athlete_header_varies_by_row:
  "map (\<lambda>c. c_col c ''athlete_name'') (i_cards (ingest_file (\<lambda>_. False) two_name_file))
     = [Some ''Jane Doe'', Some ''Bob Ray'']
   \<and> map (spec_athlete_name (f_headers two_name_file)) (f_rows two_name_file)
     = [Some ''Jane Doe'', Some '''']"
  by code_simp



section \<open>The athlete summary\<close>







text \<open>
  C10. When no numbering column is detected on the parallels table and a rookie column
  is detected on a cards table that has \<open>athlete_name\<close>, the response is the zero-filled
  summary carrying the rookie flag computed from the cards: true exactly when a matching
  card has \<open>rookie\<close> in that column after trimming and lower-casing.
\<close>

theorem rookie_kept_without_numbering:
  assumes "numberingCol (detectSchema db) = None" and "rookieCol (detectSchema db) = Some rc"
    and "has (cards_cols db) ''athlete_name''"
  shows "summarize num db a =
           Inr (zero_summary a (\<exists>c\<in>set (cards db). athlete_matches a c \<and>
                  sql_eq (sql_LOWER (sql_TRIM (c_col c rc))) (Some ''rookie'')))"
proof -
  from assms(3) obtain r where r: "rookie_flag db a = Inr r"
    using rookie_flag_total by blast
  from rookie_flag_value [OF r] assms(2)
  have "r \<longleftrightarrow> (\<exists>c\<in>set (cards db). athlete_matches a c \<and>
                  sql_eq (sql_LOWER (sql_TRIM (c_col c rc))) (Some ''rookie''))"
    by simp
  then show ?thesis using r assms(1) by (simp add: summarize_def)
qed

theorem rookie_kept_without_numbering_witness:
  "numberingCol (detectSchema no_numbering_store) = None
   \<and> rookieCol (detectSchema no_numbering_store) = Some ''rookie''
   \<and> has (cards_cols no_numbering_store) ''athlete_name''
   \<and> summarize Number_or_0 no_numbering_store ''jane doe'' = Inr (zero_summary ''jane doe'' True)"
proof -
  have n: "numberingCol (detectSchema no_numbering_store) = None"
    and r: "rookieCol (detectSchema no_numbering_store) = Some ''rookie''"
    and h: "has (cards_cols no_numbering_store) ''athlete_name''"
    by code_simp+
  have m: "(\<exists>c\<in>set (cards no_numbering_store). athlete_matches ''jane doe'' c \<and>
              sql_eq (sql_LOWER (sql_TRIM (c_col c ''rookie''))) (Some ''rookie'')) = True"
    by code_simp
  from rookie_kept_without_numbering [where num = Number_or_0 and a = "''jane doe''", OF n r h]
  show ?thesis unfolding m using n r h by simp
qed







end
